theory Spec2Isabelle
  imports Main "HOL-Library.Word" "HOL-Library.Sublist"
begin

section \<open>Storage layer of gidari: resolver, document-store adapter, transactions\<close>

text \<open>
  The development embeds \<^verbatim>\<open>internal/storage/storage.go\<close> and the document-store
  adapter that follows it in the same source unit. Go errors are values of the datatype
  \<open>error\<close>; a function that returns \<^verbatim>\<open>(T, error)\<close> with a value or else an error
  returns \<open>error + T\<close>, one that returns only \<^verbatim>\<open>error\<close> returns \<open>error option\<close>
  (\<open>None\<close> is \<^verbatim>\<open>nil\<close>). \<^verbatim>\<open>New\<close> returns an interface value beside the error, and
  the interface value is not \<^verbatim>\<open>nil\<close> on every error path, so it returns the pair.
  What the Go code obtains from packages outside the repository (the MongoDB driver,
  the connection-string parser, the record-to-BSON helper, the relational adapter) is
  taken as a parameter of the function that uses it.
\<close>

subsection \<open>Errors and backend kinds\<close>

datatype error =
    NotSupported string   \<comment> \<open>\<^verbatim>\<open>fmt.Errorf("databse for dns %q is not supported", dns)\<close>\<close>
  | BackendError string   \<comment> \<open>an error reported by a driver, a parser or a submitted operation\<close>

definition MongoType :: "8 word" where
  "MongoType = 0"

definition PostgresType :: "8 word" where
  "PostgresType = 1"

definition Scheme :: "8 word \<Rightarrow> string" where
  "Scheme t =
     (if t = MongoType then ''mongodb''
      else if t = PostgresType then ''postgresql''
      else ''unknown'')"

subsection \<open>The document-store adapter value and the facade\<close>

text \<open>
  \<^verbatim>\<open>type Mongo struct { *mongo.Client; dns string; txLock; txCh; txDoneCh }\<close>.
  The three transaction fields are never read or written by the source, so the record
  keeps the client handle and the connection string.
\<close>

record 'c Mongo =
  Client :: 'c
  dns :: string

text \<open>
  A \<^verbatim>\<open>Storage\<close> interface value is \<^verbatim>\<open>nil\<close> or holds an adapter. The
  document-store adapter it holds is a pointer \<^verbatim>\<open>*Mongo\<close>, which may itself be
  \<^verbatim>\<open>nil\<close> (\<open>None\<close>): an interface value that holds a nil pointer is not the nil
  interface. The relational adapter is not part of the source unit; what its
  constructor returns is the type parameter \<open>'p\<close>.
\<close>

datatype ('c, 'p) Storage = NilStorage | MongoStorage "'c Mongo option" | PostgresStorage 'p

text \<open>
  Modelled from the spec: the relational adapter and its \<^verbatim>\<open>Type()\<close> are missing
  from the source; the spec says that \<open>type()\<close> returns which backend variant the
  facade wraps, so on the relational adapter it returns \<^verbatim>\<open>PostgresType\<close>. On the
  document-store adapter it is the source's \<^verbatim>\<open>Type()\<close>, a method on the pointer
  that returns \<^verbatim>\<open>MongoType\<close> without reading the receiver, so it returns
  \<^verbatim>\<open>MongoType\<close> on a nil pointer too. A method call on the nil interface panics:
  the result is \<open>None\<close>.
\<close>

fun Type :: "('c, 'p) Storage \<Rightarrow> 8 word option" where
  "Type NilStorage = None"
| "Type (MongoStorage m) = Some MongoType"
| "Type (PostgresStorage p) = Some PostgresType"

text \<open>
  \<^verbatim>\<open>NewMongo\<close>: \<open>connect\<close> stands for
  \<^verbatim>\<open>mongo.Connect(context.TODO(), options.Client().ApplyURI(uri))\<close>.
\<close>

definition NewMongo :: "(string \<Rightarrow> error + 'c) \<Rightarrow> string \<Rightarrow> error + 'c Mongo" where
  "NewMongo connect uri =
     (case connect uri of
        Inl err \<Rightarrow> Inl err
      | Inr client \<Rightarrow> Inr \<lparr>Client = client, dns = uri\<rparr>)"

subsection \<open>The resolver\<close>

text \<open>\<^verbatim>\<open>strings.Contains(s, substr)\<close>: \<open>substr\<close> occurs in \<open>s\<close> as a contiguous block.\<close>

fun Contains :: "string \<Rightarrow> string \<Rightarrow> bool" where
  "Contains [] substr = (substr = [])"
| "Contains (c # cs) substr = (prefix substr (c # cs) \<or> Contains cs substr)"

text \<open>
  \<^verbatim>\<open>New(ctx, dns)\<close>; the descriptor is written \<open>dsn\<close> here, \<open>dns\<close> being the
  adapter's field. \<open>connect\<close> is the driver's connection call used by
  \<^verbatim>\<open>NewMongo\<close>; \<open>NewPostgres\<close> is the relational adapter's constructor, which is not
  part of the source unit: it gives an adapter value and an error.
  \<^verbatim>\<open>return NewMongo(ctx, dns)\<close> converts the pointer that \<^verbatim>\<open>NewMongo\<close> returns
  to the interface, also when the pointer is \<^verbatim>\<open>nil\<close> and the error is not; only
  the last \<^verbatim>\<open>return\<close> gives the nil interface.
\<close>

definition New ::
    "(string \<Rightarrow> error + 'c) \<Rightarrow> (string \<Rightarrow> 'p \<times> error option) \<Rightarrow> string
      \<Rightarrow> ('c, 'p) Storage \<times> error option" where
  "New connect NewPostgres dsn =
     (if Contains dsn (Scheme MongoType) then
        (case NewMongo connect dsn of
           Inl err \<Rightarrow> (MongoStorage None, Some err)
         | Inr m \<Rightarrow> (MongoStorage (Some m), None))
      else if Contains dsn (Scheme PostgresType) then
        (case NewPostgres dsn of (p, err) \<Rightarrow> (PostgresStorage p, err))
      else (NilStorage, Some (NotSupported dsn)))"

subsection \<open>Close\<close>

text \<open>
  \<^verbatim>\<open>func (m *Mongo) Close() { m.Close() }\<close>. The selector \<^verbatim>\<open>m.Close\<close> resolves to
  the method of \<^verbatim>\<open>*Mongo\<close> itself (the shallowest depth wins over anything promoted
  from the embedded client), so the body is a call of the same method on the same
  receiver. A call that does not return is the value \<open>None\<close>.
\<close>

partial_function (option) Close :: "'c Mongo \<Rightarrow> unit option" where
  "Close m = Close m"

subsection \<open>Sessions of the driver\<close>

text \<open>
  The driver's session primitives are outside the repository. What the source does with
  them is to call them and to look at the error they return, so the model records every
  call in a trace and takes the error of each primitive from a \<open>driver\<close> record
  (each primitive is called at most once in one run of \<^verbatim>\<open>ExecTx\<close> or of the
  worker of \<^verbatim>\<open>StartTx\<close>). \<open>SendDone\<close> is the send \<^verbatim>\<open>tx.done <- true\<close>.
\<close>

datatype call =
    StartSession | StartTransaction | CommitTransaction | AbortTransaction | EndSession
  | SendDone

record driver =
  start_session_err :: "error option"
  start_transaction_err :: "error option"
  commit_err :: "error option"
  abort_err :: "error option"

text \<open>
  A session context: the backend data seen through the session (\<open>'s\<close>), and the calls
  made on it so far, oldest first.
\<close>

record 's session =
  sdata :: 's
  calls :: "call list"

definition invoke :: "call \<Rightarrow> 's session \<Rightarrow> 's session" where
  "invoke c sc = sc\<lparr>calls := calls sc @ [c]\<rparr>"

text \<open>
  \<^verbatim>\<open>mongo.Client.UseSession(ctx, fn)\<close> of the driver: it starts a session and returns
  the error if that fails; otherwise it runs \<open>fn\<close> on the session context and ends the
  session when \<open>fn\<close> has returned (a deferred \<^verbatim>\<open>EndSession\<close>), returning what
  \<open>fn\<close> returned.
\<close>

definition UseSession ::
    "driver \<Rightarrow> ('s session \<Rightarrow> error option \<times> 's session) \<Rightarrow> 's session
      \<Rightarrow> error option \<times> 's session" where
  "UseSession drv fn sc =
     (case start_session_err drv of
        Some err \<Rightarrow> (Some err, invoke StartSession sc)
      | None \<Rightarrow>
          (case fn (invoke StartSession sc) of
             (r, sc') \<Rightarrow> (r, invoke EndSession sc')))"

subsection \<open>ExecTx\<close>

text \<open>
  \<^verbatim>\<open>ExecTx(ctx, fn)\<close>. The function \<open>fn\<close> works on the backend data and returns
  \<^verbatim>\<open>(ok, err)\<close>. The trace holds the primitives that \<^verbatim>\<open>ExecTx\<close> itself calls.
\<close>

definition ExecTx_body ::
    "driver \<Rightarrow> ('s \<Rightarrow> (bool \<times> error option) \<times> 's) \<Rightarrow> 's session \<Rightarrow> error option \<times> 's session" where
  "ExecTx_body drv fn sessionContext =
     (case start_transaction_err drv of
        Some err \<Rightarrow> (Some err, invoke StartTransaction sessionContext)
      | None \<Rightarrow>
          (case fn (sdata sessionContext) of
             ((ok, Some err), d) \<Rightarrow>
               (Some err, (invoke StartTransaction sessionContext)\<lparr>sdata := d\<rparr>)
           | ((ok, None), d) \<Rightarrow>
               (if \<not> ok then
                  (case abort_err drv of
                     Some err \<Rightarrow>
                       (Some err,
                        invoke AbortTransaction ((invoke StartTransaction sessionContext)\<lparr>sdata := d\<rparr>))
                   | None \<Rightarrow>
                       (None,
                        invoke AbortTransaction ((invoke StartTransaction sessionContext)\<lparr>sdata := d\<rparr>)))
                else
                  (None, invoke EndSession ((invoke StartTransaction sessionContext)\<lparr>sdata := d\<rparr>)))))"

definition ExecTx ::
    "driver \<Rightarrow> ('s \<Rightarrow> (bool \<times> error option) \<times> 's) \<Rightarrow> 's session \<Rightarrow> error option \<times> 's session" where
  "ExecTx drv fn sc = UseSession drv (ExecTx_body drv fn) sc"

subsection \<open>StartTx: the transaction handle and its worker\<close>

text \<open>
  A submitted operation is a \<^verbatim>\<open>func(context.Context) error\<close> run on the session
  context: it may change the backend data and may return an error.
\<close>

type_synonym 's op = "'s \<Rightarrow> error option \<times> 's"

text \<open>
  The worker is the goroutine that \<^verbatim>\<open>StartTx\<close> hands to \<^verbatim>\<open>tx.Errs.Go\<close>. Its
  control points are the places where it calls a primitive or where it can block on a
  channel:
  \<^item> \<open>AtUseSession\<close>: before \<^verbatim>\<open>m.UseSession\<close>;
  \<^item> \<open>AtStartTransaction\<close>: before \<^verbatim>\<open>sctx.StartTransaction()\<close>;
  \<^item> \<open>AtRange\<close>: at \<^verbatim>\<open>for fn := range tx.Ch\<close>, waiting for a value or for the close;
  \<^item> \<open>AtCall p fn\<close>: \<open>fn\<close> has been received (from producer \<open>p\<close>) and \<^verbatim>\<open>fn(sctx)\<close> is
    about to run;
  \<^item> \<open>AtCommitRecv\<close>: at the receive \<^verbatim>\<open><-tx.commit\<close> of the first case of the switch;
  \<^item> \<open>AtRollbackRecv\<close>: at the receive \<^verbatim>\<open><-tx.rollback\<close> of the second case;
  \<^item> \<open>AtDoneSend\<close>: at \<^verbatim>\<open>tx.done <- true\<close>;
  \<^item> \<open>Returned r\<close>: the goroutine has returned \<open>r\<close> to the error group.
\<close>

datatype 's pc =
    AtUseSession
  | AtStartTransaction
  | AtRange
  | AtCall nat "'s op"
  | AtCommitRecv
  | AtRollbackRecv
  | AtDoneSend
  | Returned "error option"

text \<open>
  The struct \<^verbatim>\<open>Tx\<close> is declared outside the source unit; the composite literal in
  \<^verbatim>\<open>StartTx\<close> and the uses in the worker give its fields: the error group
  \<^verbatim>\<open>Errs\<close>, the unbuffered channel \<^verbatim>\<open>Ch\<close> and three channels of booleans with
  capacity 1, \<^verbatim>\<open>done\<close>, \<^verbatim>\<open>commit\<close> and \<^verbatim>\<open>rollback\<close>.

  The state of one transaction: the worker's control point and session, and the four
  channels of the handle. \<^verbatim>\<open>tx.Ch\<close> is unbuffered, so it holds nothing and is
  either open or closed; \<^verbatim>\<open>tx.commit\<close>, \<^verbatim>\<open>tx.rollback\<close> and \<^verbatim>\<open>tx.done\<close>
  have capacity 1, and their buffers are lists, oldest value first. \<open>executed\<close> lists
  the operations the worker has run, oldest first, each with the producer it came from.
\<close>

record 's Tx =
  pc :: "'s pc"
  sctx :: "'s session"
  executed :: "(nat \<times> 's op) list"
  Ch_closed :: bool
  commit_ch :: "bool list"
  rollback_ch :: "bool list"
  done_ch :: "bool list"

text \<open>
  \<^verbatim>\<open>StartTx\<close> makes the channels, starts the worker and returns the handle at once.
  \<open>d\<close> is the backend data at that moment; no call has been made on the session yet.
\<close>

definition StartTx :: "'s \<Rightarrow> 's Tx" where
  "StartTx d =
     \<lparr>pc = AtUseSession, sctx = \<lparr>sdata = d, calls = []\<rparr>, executed = [], Ch_closed = False,
      commit_ch = [], rollback_ch = [], done_ch = []\<rparr>"

text \<open>
  One step of the worker; \<open>None\<close> when it cannot move (it is blocked on a channel, or
  it has returned). The switch has no tag: its cases are evaluated in order, so the
  worker first receives from \<^verbatim>\<open>tx.commit\<close> and compares the value with \<^verbatim>\<open>true\<close>,
  and only when that value is \<^verbatim>\<open>false\<close> does it receive from \<^verbatim>\<open>tx.rollback\<close>.
  The error of \<^verbatim>\<open>AbortTransaction\<close> is dropped by the source. Every return from
  inside \<^verbatim>\<open>UseSession\<close> runs the deferred \<^verbatim>\<open>EndSession\<close>.
\<close>

definition worker_step :: "driver \<Rightarrow> 's Tx \<Rightarrow> 's Tx option" where
  "worker_step drv tx =
     (case pc tx of
        AtUseSession \<Rightarrow>
          (case start_session_err drv of
             Some err \<Rightarrow>
               Some (tx\<lparr>pc := Returned (Some err), sctx := invoke StartSession (sctx tx)\<rparr>)
           | None \<Rightarrow>
               Some (tx\<lparr>pc := AtStartTransaction, sctx := invoke StartSession (sctx tx)\<rparr>))
      | AtStartTransaction \<Rightarrow>
          (case start_transaction_err drv of
             Some err \<Rightarrow>
               Some (tx\<lparr>pc := Returned (Some err),
                        sctx := invoke EndSession (invoke StartTransaction (sctx tx))\<rparr>)
           | None \<Rightarrow>
               Some (tx\<lparr>pc := AtRange, sctx := invoke StartTransaction (sctx tx)\<rparr>))
      | AtRange \<Rightarrow>
          (if Ch_closed tx then Some (tx\<lparr>pc := AtCommitRecv\<rparr>) else None)
      | AtCall p fn \<Rightarrow>
          (case fn (sdata (sctx tx)) of
             (Some err, d) \<Rightarrow>
               Some (tx\<lparr>pc := Returned (Some err),
                        sctx := invoke EndSession ((sctx tx)\<lparr>sdata := d\<rparr>),
                        executed := executed tx @ [(p, fn)]\<rparr>)
           | (None, d) \<Rightarrow>
               Some (tx\<lparr>pc := AtRange,
                        sctx := (sctx tx)\<lparr>sdata := d\<rparr>,
                        executed := executed tx @ [(p, fn)]\<rparr>))
      | AtCommitRecv \<Rightarrow>
          (case commit_ch tx of
             [] \<Rightarrow> None
           | v # rest \<Rightarrow>
               (if v then
                  (case commit_err drv of
                     Some err \<Rightarrow>
                       Some (tx\<lparr>pc := Returned (Some err), commit_ch := rest,
                                sctx := invoke EndSession (invoke CommitTransaction (sctx tx))\<rparr>)
                   | None \<Rightarrow>
                       Some (tx\<lparr>pc := AtDoneSend, commit_ch := rest,
                                sctx := invoke CommitTransaction (sctx tx)\<rparr>))
                else Some (tx\<lparr>pc := AtRollbackRecv, commit_ch := rest\<rparr>)))
      | AtRollbackRecv \<Rightarrow>
          (case rollback_ch tx of
             [] \<Rightarrow> None
           | v # rest \<Rightarrow>
               (if v then
                  Some (tx\<lparr>pc := AtDoneSend, rollback_ch := rest,
                           sctx := invoke AbortTransaction (sctx tx)\<rparr>)
                else Some (tx\<lparr>pc := AtDoneSend, rollback_ch := rest\<rparr>)))
      | AtDoneSend \<Rightarrow>
          (if length (done_ch tx) < 1 then
             Some (tx\<lparr>pc := Returned None, done_ch := done_ch tx @ [True],
                      sctx := invoke EndSession (invoke SendDone (sctx tx))\<rparr>)
           else None)
      | Returned r \<Rightarrow> None)"

text \<open>
  What the other goroutines can do with the handle: send an operation on \<^verbatim>\<open>tx.Ch\<close>
  (producer \<open>p\<close> sends \<open>fn\<close>), close \<^verbatim>\<open>tx.Ch\<close>, send a value on \<^verbatim>\<open>tx.commit\<close> or
  on \<^verbatim>\<open>tx.rollback\<close>, receive from \<^verbatim>\<open>tx.done\<close>. \<open>Work\<close> is a step of the worker.
  The methods of \<^verbatim>\<open>Tx\<close> that do these things are outside the source unit, so the
  actions are the channel operations themselves, in any order and any number.
\<close>

datatype 's action =
    Work
  | Submit nat "'s op"
  | CloseCh
  | SignalCommit bool
  | SignalRollback bool
  | AwaitDone

text \<open>
  An action either happens (\<open>Ok\<close>, with the next state), cannot happen now (\<open>Blocks\<close>:
  the goroutine stays suspended in it), or panics. Go's channel rules: a send on an
  unbuffered channel happens when the receiver is waiting in a receive; a send on a
  buffered channel happens when the buffer has room; a send on a closed channel and
  the close of a closed channel panic; a receive happens when the buffer holds a value.
\<close>

datatype 'a outcome = Ok 'a | Blocks | Panics

definition step :: "driver \<Rightarrow> 's action \<Rightarrow> 's Tx \<Rightarrow> 's Tx outcome" where
  "step drv a tx =
     (case a of
        Work \<Rightarrow> (case worker_step drv tx of None \<Rightarrow> Blocks | Some tx' \<Rightarrow> Ok tx')
      | Submit p fn \<Rightarrow>
          (if Ch_closed tx then Panics
           else (case pc tx of AtRange \<Rightarrow> Ok (tx\<lparr>pc := AtCall p fn\<rparr>) | _ \<Rightarrow> Blocks))
      | CloseCh \<Rightarrow> (if Ch_closed tx then Panics else Ok (tx\<lparr>Ch_closed := True\<rparr>))
      | SignalCommit v \<Rightarrow>
          (if length (commit_ch tx) < 1 then Ok (tx\<lparr>commit_ch := commit_ch tx @ [v]\<rparr>)
           else Blocks)
      | SignalRollback v \<Rightarrow>
          (if length (rollback_ch tx) < 1 then Ok (tx\<lparr>rollback_ch := rollback_ch tx @ [v]\<rparr>)
           else Blocks)
      | AwaitDone \<Rightarrow>
          (case done_ch tx of [] \<Rightarrow> Blocks | v # rest \<Rightarrow> Ok (tx\<lparr>done_ch := rest\<rparr>)))"

text \<open>
  A schedule is the sequence of actions in the order in which they happen. Running a
  schedule stops at the first action that cannot happen.
\<close>

fun run :: "driver \<Rightarrow> 's action list \<Rightarrow> 's Tx \<Rightarrow> 's Tx outcome" where
  "run drv [] tx = Ok tx"
| "run drv (a # as) tx =
     (case step drv a tx of
        Ok tx' \<Rightarrow> run drv as tx'
      | Blocks \<Rightarrow> Blocks
      | Panics \<Rightarrow> Panics)"




text \<open>How often a call occurs in a trace.\<close>

definition times :: "call \<Rightarrow> call list \<Rightarrow> nat" where
  "times c cs = length (filter (\<lambda>x. x = c) cs)"

text \<open>
  Two invariants of the worker, by control point. \<open>trace_ok\<close>: before the switch has
  taken a case no terminal primitive has been called and nothing has been sent on
  \<^verbatim>\<open>tx.done\<close>; afterwards at most one terminal primitive has been called, and the
  send on \<^verbatim>\<open>tx.done\<close> has happened once when the worker has returned \<^verbatim>\<open>nil\<close>
  and not at all otherwise. \<open>undecided\<close>: nothing has arrived on \<^verbatim>\<open>tx.commit\<close> and
  the worker has not gone past the first receive of the switch.
\<close>

definition trace_ok :: "'s Tx \<Rightarrow> bool" where
  "trace_ok tx =
     (let cs = calls (sctx tx);
          terminal = times CommitTransaction cs + times AbortTransaction cs;
          sent = times SendDone cs
      in case pc tx of
           Returned None \<Rightarrow> terminal \<le> 1 \<and> sent = 1
         | Returned (Some err) \<Rightarrow> terminal \<le> 1 \<and> sent = 0 \<and> done_ch tx = []
         | AtDoneSend \<Rightarrow> terminal \<le> 1 \<and> sent = 0 \<and> done_ch tx = []
         | _ \<Rightarrow> terminal = 0 \<and> sent = 0 \<and> done_ch tx = [])"

definition undecided :: "'s Tx \<Rightarrow> bool" where
  "undecided tx =
     (commit_ch tx = [] \<and>
      CommitTransaction \<notin> set (calls (sctx tx)) \<and>
      AbortTransaction \<notin> set (calls (sctx tx)) \<and>
      SendDone \<notin> set (calls (sctx tx)) \<and>
      (case pc tx of
         AtRollbackRecv \<Rightarrow> False
       | AtDoneSend \<Rightarrow> False
       | Returned None \<Rightarrow> False
       | _ \<Rightarrow> True))"

subsection \<open>Read and Upsert\<close>

text \<open>
  \<^verbatim>\<open>Read(ctx, req, rsp)\<close>: every statement of the body but \<^verbatim>\<open>return nil\<close> is
  commented out in the source. \<open>rsp\<close> is the record sequence of the response as the
  caller passed it, \<open>db\<close> the backend data; the result is the returned error and the
  record sequence of the response after the call.
\<close>

definition Read :: "'c Mongo \<Rightarrow> 'q \<Rightarrow> 'r list \<Rightarrow> 'b \<Rightarrow> error option \<times> 'r list" where
  "Read m req rsp db = (None, rsp)"

record 'r UpsertRequest =
  Table :: string
  Records :: "'r list"

text \<open>
  \<^verbatim>\<open>mongo.NewUpdateOneModel().SetFilter(doc).SetUpdate(bson.D{{"$set", doc}}).SetUpsert(true)\<close>
  is \<open>UpdateOneModel doc doc True\<close>: the filter, the document of the \<^verbatim>\<open>$set\<close>, the
  upsert flag.
\<close>

datatype 'd WriteModel = UpdateOneModel 'd 'd bool

text \<open>
  The loop of \<^verbatim>\<open>Upsert\<close> over \<^verbatim>\<open>req.Records\<close>. \<open>assign\<close> stands for
  \<^verbatim>\<open>tools.AssingRecordBSONDocument\<close>, which is not part of the source unit: it gives
  the document of a record, or an error.
\<close>

fun build_models ::
    "('r \<Rightarrow> error + 'd) \<Rightarrow> 'r list \<Rightarrow> 'd WriteModel list \<Rightarrow> error + 'd WriteModel list" where
  "build_models assign [] models = Inr models"
| "build_models assign (record # records) models =
     (case assign record of
        Inl err \<Rightarrow> Inl err
      | Inr doc \<Rightarrow> build_models assign records (models @ [UpdateOneModel doc doc True]))"

text \<open>
  The backend as \<^verbatim>\<open>Upsert\<close> sees it: its data, and the bulk writes issued to it so
  far (database, collection, models), oldest first.
\<close>

record ('d, 'b) backend =
  contents :: 'b
  bulk_writes :: "(string \<times> string \<times> 'd WriteModel list) list"

text \<open>
  \<^verbatim>\<open>Upsert(ctx, req, rsp)\<close>. \<open>ParseAndValidate\<close> stands for the driver's
  \<^verbatim>\<open>connstring.ParseAndValidate\<close>, reduced to the database name it yields;
  \<open>BulkWrite\<close> stands for \<^verbatim>\<open>Collection.BulkWrite\<close> of the driver: given the
  database, the collection and the models it changes the backend data and may return
  an error. The response \<^verbatim>\<open>rsp\<close> is never written by the source.
\<close>

definition Upsert ::
    "('r \<Rightarrow> error + 'd) \<Rightarrow> (string \<Rightarrow> error + string)
      \<Rightarrow> (string \<Rightarrow> string \<Rightarrow> 'd WriteModel list \<Rightarrow> 'b \<Rightarrow> error option \<times> 'b)
      \<Rightarrow> 'c Mongo \<Rightarrow> 'r UpsertRequest \<Rightarrow> ('d, 'b) backend \<Rightarrow> error option \<times> ('d, 'b) backend" where
  "Upsert assign ParseAndValidate BulkWrite m req be =
     (case build_models assign (Records req) [] of
        Inl err \<Rightarrow> (Some err, be)
      | Inr models \<Rightarrow>
          (case ParseAndValidate (dns m) of
             Inl err \<Rightarrow> (Some err, be)
           | Inr database \<Rightarrow>
               (case BulkWrite database (Table req) models (contents be) of
                  (Some err, b) \<Rightarrow>
                    (Some err,
                     \<lparr>contents = b,
                      bulk_writes = bulk_writes be @ [(database, Table req, models)]\<rparr>)
                | (None, b) \<Rightarrow>
                    (None,
                     \<lparr>contents = b,
                      bulk_writes = bulk_writes be @ [(database, Table req, models)]\<rparr>))))"

subsection \<open>Sample drivers, operations and backends\<close>

text \<open>Concrete values on which the theorems below are instantiated.\<close>

definition reliable :: driver where
  "reliable =
     \<lparr>start_session_err = None, start_transaction_err = None,
      commit_err = None, abort_err = None\<rparr>"

definition commit_failing :: driver where
  "commit_failing = reliable\<lparr>commit_err := Some (BackendError ''commit failed'')\<rparr>"

definition put :: "string \<Rightarrow> string list op" where
  "put r = (\<lambda>d. (None, d @ [r]))"

definition failing :: "string list op" where
  "failing = (\<lambda>d. (Some (BackendError ''invalid record''), d))"

text \<open>
  A document store with one collection, for the bulk write of the driver in its default
  (ordered) mode as the MongoDB manual describes it: the operations run one after the
  other, the first write error stops the batch, and what was written before the error
  stays written. \<open>accepts\<close> says which documents the server takes (a validation rule,
  a unique index). An update-one with the upsert flag whose filter matches no document
  inserts the document.
\<close>

fun update_first :: "'d \<Rightarrow> 'd \<Rightarrow> 'd list \<Rightarrow> 'd list" where
  "update_first flt doc [] = []"
| "update_first flt doc (x # xs) =
     (if x = flt then doc # xs else x # update_first flt doc xs)"

fun ordered_bulk ::
    "('d \<Rightarrow> bool) \<Rightarrow> 'd WriteModel list \<Rightarrow> 'd list \<Rightarrow> error option \<times> 'd list" where
  "ordered_bulk accepts [] docs = (None, docs)"
| "ordered_bulk accepts (UpdateOneModel flt doc ups # models) docs =
     (if accepts doc then
        ordered_bulk accepts models
          (if flt \<in> set docs then update_first flt doc docs
           else if ups then docs @ [doc] else docs)
      else (Some (BackendError ''write error''), docs))"

section \<open>Properties\<close>

lemma Contains_iff_sublist: "Contains s substr \<longleftrightarrow> sublist substr s"
  by (induction s) (auto simp: sublist_Cons_right)

lemma Scheme_MongoType: "Scheme MongoType = ''mongodb''"
  by (simp add: Scheme_def)

lemma Scheme_PostgresType: "Scheme PostgresType = ''postgresql''"
  by (simp add: Scheme_def MongoType_def PostgresType_def)

lemma Close_no_result: "Close m \<noteq> Some u"
proof
  assume returned: "Close m = Some u"
  show False
  proof (rule Close.raw_induct [where P = "\<lambda>_ _. False", OF _ returned])
    fix f :: "'a Mongo \<Rightarrow> unit option" and x y
    assume "\<And>x y. f x = Some y \<Longrightarrow> False" and "f x = Some y"
    then show False by blast
  qed
qed

text \<open>
  C7. The claim says that one call of \<^verbatim>\<open>Close()\<close> on the document-store adapter
  terminates and releases the connection. In the source the method calls itself:
  for every adapter value the call never returns.
\<close>

theorem Close_never_returns: "Close m = None"
  using Close_no_result [of m] by (cases "Close m") auto

subsection \<open>The resolver\<close>

lemma Contains_prefix: "prefix p s \<Longrightarrow> Contains s p"
  by (cases s) auto

lemma MongoType_neq_PostgresType: "MongoType \<noteq> PostgresType"
  by (simp add: MongoType_def PostgresType_def)

text \<open>
  C6, as amended. \<^verbatim>\<open>New\<close> looks for the two scheme names anywhere in the
  descriptor, the document store's first, and hands the descriptor to the constructor
  of the first name found:
  \<^item> for a descriptor that contains \<^verbatim>\<open>mongodb\<close> it returns what the document-store
    constructor gives, as an interface value: the adapter and no error, or the
    constructor's error beside an interface value that holds a nil \<^verbatim>\<open>*Mongo\<close>;
  \<^item> for one that contains \<^verbatim>\<open>postgresql\<close> and not \<^verbatim>\<open>mongodb\<close> it returns the
    adapter value and the error that the relational constructor gives;
  \<^item> for one that contains neither it returns the nil interface and the not-supported
    error, whatever the constructors would do;
  \<^item> \<^verbatim>\<open>Type()\<close> of the interface value returned is \<^verbatim>\<open>MongoType\<close> in the first
    case, \<^verbatim>\<open>PostgresType\<close> in the second, and the call panics in the third;
  \<^item> a descriptor that starts with \<^verbatim>\<open>mongodb://\<close> contains \<^verbatim>\<open>mongodb\<close>, and one
    that starts with \<^verbatim>\<open>postgresql://\<close> contains \<^verbatim>\<open>postgresql\<close>.
\<close>

theorem New_resolves_by_substring:
  "(Contains dsn ''mongodb'' \<longrightarrow>
      New connect NewPostgres dsn =
        (case connect dsn of
           Inl err \<Rightarrow> (MongoStorage None, Some err)
         | Inr client \<Rightarrow> (MongoStorage (Some \<lparr>Client = client, dns = dsn\<rparr>), None))) \<and>
   (\<not> Contains dsn ''mongodb'' \<and> Contains dsn ''postgresql'' \<longrightarrow>
      New connect NewPostgres dsn =
        (PostgresStorage (fst (NewPostgres dsn)), snd (NewPostgres dsn))) \<and>
   (\<not> Contains dsn ''mongodb'' \<and> \<not> Contains dsn ''postgresql'' \<longrightarrow>
      New connect NewPostgres dsn = (NilStorage, Some (NotSupported dsn))) \<and>
   Type (fst (New connect NewPostgres dsn)) =
     (if Contains dsn ''mongodb'' then Some MongoType
      else if Contains dsn ''postgresql'' then Some PostgresType
      else None) \<and>
   (prefix ''mongodb://'' dsn \<longrightarrow> Contains dsn ''mongodb'') \<and>
   (prefix ''postgresql://'' dsn \<longrightarrow> Contains dsn ''postgresql'')"
proof (intro conjI impI)
  assume "Contains dsn ''mongodb''"
  then show "New connect NewPostgres dsn =
        (case connect dsn of
           Inl err \<Rightarrow> (MongoStorage None, Some err)
         | Inr client \<Rightarrow> (MongoStorage (Some \<lparr>Client = client, dns = dsn\<rparr>), None))"
    by (simp add: New_def NewMongo_def Scheme_MongoType split: sum.splits)
next
  assume "\<not> Contains dsn ''mongodb'' \<and> Contains dsn ''postgresql''"
  then show "New connect NewPostgres dsn =
        (PostgresStorage (fst (NewPostgres dsn)), snd (NewPostgres dsn))"
    by (simp add: New_def Scheme_MongoType Scheme_PostgresType split: prod.splits)
next
  assume "\<not> Contains dsn ''mongodb'' \<and> \<not> Contains dsn ''postgresql''"
  then show "New connect NewPostgres dsn = (NilStorage, Some (NotSupported dsn))"
    by (simp add: New_def Scheme_MongoType Scheme_PostgresType)
next
  show "Type (fst (New connect NewPostgres dsn)) =
     (if Contains dsn ''mongodb'' then Some MongoType
      else if Contains dsn ''postgresql'' then Some PostgresType
      else None)"
    by (simp add: New_def Scheme_MongoType Scheme_PostgresType split: sum.splits prod.splits)
next
  assume "prefix ''mongodb://'' dsn"
  then have "prefix ''mongodb'' dsn"
    by (auto simp: prefix_def)
  then show "Contains dsn ''mongodb''"
    by (rule Contains_prefix)
next
  assume "prefix ''postgresql://'' dsn"
  then have "prefix ''postgresql'' dsn"
    by (auto simp: prefix_def)
  then show "Contains dsn ''postgresql''"
    by (rule Contains_prefix)
qed

text \<open>
  The three branches on descriptors of the three kinds, with constructors that succeed.
\<close>

theorem New_resolves_by_substring_witness:
  "(New (\<lambda>uri. Inr ()) (\<lambda>uri. ((), None)) ''mongodb://localhost:27017/gidari''
      :: (unit, unit) Storage \<times> error option) =
     (MongoStorage (Some \<lparr>Client = (), dns = ''mongodb://localhost:27017/gidari''\<rparr>), None) \<and>
   (New (\<lambda>uri. Inr ()) (\<lambda>uri. ((), None)) ''postgresql://localhost:5432/gidari''
      :: (unit, unit) Storage \<times> error option) = (PostgresStorage (), None) \<and>
   (New (\<lambda>uri. Inr ()) (\<lambda>uri. ((), None)) ''redis://localhost:6379''
      :: (unit, unit) Storage \<times> error option) =
     (NilStorage, Some (NotSupported ''redis://localhost:6379'')) \<and>
   Type (MongoStorage (Some \<lparr>Client = (), dns = ''mongodb://localhost:27017/gidari''\<rparr>)
      :: (unit, unit) Storage) = Some MongoType \<and>
   Type (PostgresStorage () :: (unit, unit) Storage) = Some PostgresType \<and>
   Contains ''mongodb://localhost:27017/gidari'' ''mongodb'' \<and>
   Contains ''postgresql://localhost:5432/gidari'' ''postgresql''"
  using
    New_resolves_by_substring
      [of "''mongodb://localhost:27017/gidari''" "\<lambda>uri. Inr ()" "\<lambda>uri. ((), None)"]
    New_resolves_by_substring
      [of "''postgresql://localhost:5432/gidari''" "\<lambda>uri. Inr ()" "\<lambda>uri. ((), None)"]
    New_resolves_by_substring
      [of "''redis://localhost:6379''" "\<lambda>uri. Inr ()" "\<lambda>uri. ((), None)"]
  by simp

text \<open>
  C6 as the spec states it fails. The descriptor \<^verbatim>\<open>postgresql://mongodb-host/db\<close>
  has the scheme \<^verbatim>\<open>postgresql://\<close>, and its host name contains \<^verbatim>\<open>mongodb\<close>: it
  is handed to the document-store constructor. Whatever the two constructors do, the
  interface value that comes back holds no relational adapter, and its \<^verbatim>\<open>Type()\<close> is
  \<^verbatim>\<open>MongoType\<close>, not \<^verbatim>\<open>PostgresType\<close>.
\<close>

theorem New_scheme_counterexample:
  "prefix ''postgresql://'' ''postgresql://mongodb-host/db'' \<and>
   \<not> (\<exists>connect NewPostgres p.
         fst (New connect NewPostgres ''postgresql://mongodb-host/db''
                :: (unit, unit) Storage \<times> error option) = PostgresStorage p) \<and>
   \<not> (\<exists>connect NewPostgres.
         Type (fst (New connect NewPostgres ''postgresql://mongodb-host/db''
                :: (unit, unit) Storage \<times> error option)) = Some PostgresType) \<and>
   (\<forall>connect NewPostgres.
         Type (fst (New connect NewPostgres ''postgresql://mongodb-host/db''
                :: (unit, unit) Storage \<times> error option)) = Some MongoType)"
  by (auto simp: New_def NewMongo_def Scheme_MongoType MongoType_neq_PostgresType
      split: sum.splits)

subsection \<open>ExecTx\<close>

lemma calls_invoke: "calls (invoke c sc) = calls sc @ [c]"
  by (simp add: invoke_def)

lemma sdata_invoke: "sdata (invoke c sc) = sdata sc"
  by (simp add: invoke_def)

text \<open>
  C10. Once the session and the transaction have started, \<^verbatim>\<open>ExecTx\<close> returns the
  error of \<open>fn\<close> when \<open>fn\<close> returns one; when \<open>fn\<close> returns \<^verbatim>\<open>ok = false\<close>
  and no error it calls the abort primitive (and returns what the abort returns); when
  \<open>fn\<close> returns \<^verbatim>\<open>ok = true\<close> and no error it only ends the session (once itself,
  once more by \<^verbatim>\<open>UseSession\<close>) and returns \<^verbatim>\<open>nil\<close>. On every path, whatever the
  driver and \<open>fn\<close> do, the calls that \<^verbatim>\<open>ExecTx\<close> adds to the trace do not include
  the commit primitive.
\<close>

theorem ExecTx_never_commits:
  "(start_session_err drv = None \<and> start_transaction_err drv = None \<and>
      fn (sdata sc) = ((ok, Some err), d) \<longrightarrow>
        fst (ExecTx drv fn sc) = Some err) \<and>
   (start_session_err drv = None \<and> start_transaction_err drv = None \<and>
      fn (sdata sc) = ((False, None), d) \<longrightarrow>
        fst (ExecTx drv fn sc) = abort_err drv \<and>
        calls (snd (ExecTx drv fn sc)) =
          calls sc @ [StartSession, StartTransaction, AbortTransaction, EndSession]) \<and>
   (start_session_err drv = None \<and> start_transaction_err drv = None \<and>
      fn (sdata sc) = ((True, None), d) \<longrightarrow>
        fst (ExecTx drv fn sc) = None \<and>
        calls (snd (ExecTx drv fn sc)) =
          calls sc @ [StartSession, StartTransaction, EndSession, EndSession]) \<and>
   (\<exists>cs. calls (snd (ExecTx drv fn sc)) = calls sc @ cs \<and> CommitTransaction \<notin> set cs)"
proof (intro conjI impI)
  assume "start_session_err drv = None \<and> start_transaction_err drv = None \<and>
      fn (sdata sc) = ((ok, Some err), d)"
  then show "fst (ExecTx drv fn sc) = Some err"
    by (simp add: ExecTx_def UseSession_def ExecTx_body_def sdata_invoke)
next
  assume "start_session_err drv = None \<and> start_transaction_err drv = None \<and>
      fn (sdata sc) = ((False, None), d)"
  then show "fst (ExecTx drv fn sc) = abort_err drv"
    and "calls (snd (ExecTx drv fn sc)) =
          calls sc @ [StartSession, StartTransaction, AbortTransaction, EndSession]"
    by (simp_all add: ExecTx_def UseSession_def ExecTx_body_def sdata_invoke calls_invoke
        split: option.splits)
next
  assume "start_session_err drv = None \<and> start_transaction_err drv = None \<and>
      fn (sdata sc) = ((True, None), d)"
  then show "fst (ExecTx drv fn sc) = None"
    and "calls (snd (ExecTx drv fn sc)) =
          calls sc @ [StartSession, StartTransaction, EndSession, EndSession]"
    by (simp_all add: ExecTx_def UseSession_def ExecTx_body_def sdata_invoke calls_invoke)
next
  show "\<exists>cs. calls (snd (ExecTx drv fn sc)) = calls sc @ cs \<and> CommitTransaction \<notin> set cs"
    by (auto simp: ExecTx_def UseSession_def ExecTx_body_def sdata_invoke calls_invoke
        split: option.splits prod.splits bool.splits)
qed

text \<open>
  The three outcomes of \<open>fn\<close> on a reliable driver and a fresh session: an error, a
  refusal, an agreement after adding a record.
\<close>

theorem ExecTx_never_commits_witness:
  "fst (ExecTx reliable (\<lambda>d. ((False, Some (BackendError ''invalid record'')), d))
         \<lparr>sdata = [''a''], calls = []\<rparr>) = Some (BackendError ''invalid record'') \<and>
   ExecTx reliable (\<lambda>d. ((False, None), d @ [''b''])) \<lparr>sdata = [''a''], calls = []\<rparr> =
     (None,
      \<lparr>sdata = [''a'', ''b''],
       calls = [StartSession, StartTransaction, AbortTransaction, EndSession]\<rparr>) \<and>
   ExecTx reliable (\<lambda>d. ((True, None), d @ [''b''])) \<lparr>sdata = [''a''], calls = []\<rparr> =
     (None,
      \<lparr>sdata = [''a'', ''b''],
       calls = [StartSession, StartTransaction, EndSession, EndSession]\<rparr>)"
  using
    ExecTx_never_commits
      [of reliable "\<lambda>d. ((False, Some (BackendError ''invalid record'')), d)"
          "\<lparr>sdata = [''a''], calls = []\<rparr>" False "BackendError ''invalid record''" "[''a'']"]
    ExecTx_never_commits
      [of reliable "\<lambda>d. ((False, None), d @ [''b''])"
          "\<lparr>sdata = [''a''], calls = []\<rparr>" False "BackendError ''invalid record''"
          "[''a'', ''b'']"]
    ExecTx_never_commits
      [of reliable "\<lambda>d. ((True, None), d @ [''b''])"
          "\<lparr>sdata = [''a''], calls = []\<rparr>" False "BackendError ''invalid record''"
          "[''a'', ''b'']"]
  by (simp add: reliable_def ExecTx_def UseSession_def ExecTx_body_def invoke_def)

subsection \<open>Read\<close>

text \<open>
  C8. The claim says that \<^verbatim>\<open>Read\<close> runs the query, loads every matching record into
  the response and passes a backend failure on. The body that would do so is commented
  out in the source: for every adapter, request, response and backend, \<^verbatim>\<open>Read\<close>
  returns \<^verbatim>\<open>nil\<close> and leaves the response as the caller passed it.
\<close>

theorem Read_leaves_response: "Read m req rsp db = (None, rsp)"
  by (simp add: Read_def)

subsection \<open>Upsert\<close>

lemma build_models_ok:
  "(\<And>r. r \<in> set rs \<Longrightarrow> assign r = Inr (doc_of r)) \<Longrightarrow>
     build_models assign rs ms = Inr (ms @ map (\<lambda>r. UpdateOneModel (doc_of r) (doc_of r) True) rs)"
  by (induction rs arbitrary: ms) auto

lemma build_models_first_error:
  "(\<And>r. r \<in> set pre \<Longrightarrow> assign r = Inr (doc_of r)) \<Longrightarrow> assign bad = Inl err \<Longrightarrow>
     build_models assign (pre @ bad # post) ms = Inl err"
  by (induction pre arbitrary: ms) auto

text \<open>
  C9, as amended. For every request, whatever the bulk write of the driver does:
  \<^item> when a record cannot be prepared (the records before it can), \<^verbatim>\<open>Upsert\<close> returns
    the error of that record, issues no bulk write and leaves the backend as it was;
  \<^item> when every record can be prepared and the connection string does not parse,
    \<^verbatim>\<open>Upsert\<close> returns the parser's error, issues no bulk write and leaves the backend
    as it was;
  \<^item> otherwise \<^verbatim>\<open>Upsert\<close> issues exactly one bulk write, to the collection named by
    the request, with one update-one model per record in the order of the request, each
    with the record's whole document as filter and as \<^verbatim>\<open>$set\<close> and with the upsert
    flag; it returns the error of that bulk write, and the backend is what that bulk
    write leaves.
\<close>

theorem Upsert_one_bulk_write:
  "((\<forall>r. r \<in> set pre \<longrightarrow> assign r = Inr (doc_of r)) \<and> assign bad = Inl err \<and>
      Records req = pre @ bad # post \<longrightarrow>
        Upsert assign ParseAndValidate BulkWrite m req be = (Some err, be)) \<and>
   ((\<forall>r. r \<in> set (Records req) \<longrightarrow> assign r = Inr (doc_of r)) \<and>
      ParseAndValidate (dns m) = Inl err \<longrightarrow>
        Upsert assign ParseAndValidate BulkWrite m req be = (Some err, be)) \<and>
   ((\<forall>r. r \<in> set (Records req) \<longrightarrow> assign r = Inr (doc_of r)) \<and>
      ParseAndValidate (dns m) = Inr database \<longrightarrow>
        Upsert assign ParseAndValidate BulkWrite m req be =
          (fst (BulkWrite database (Table req)
                 (map (\<lambda>r. UpdateOneModel (doc_of r) (doc_of r) True) (Records req)) (contents be)),
           \<lparr>contents =
              snd (BulkWrite database (Table req)
                 (map (\<lambda>r. UpdateOneModel (doc_of r) (doc_of r) True) (Records req)) (contents be)),
            bulk_writes = bulk_writes be @
              [(database, Table req,
                map (\<lambda>r. UpdateOneModel (doc_of r) (doc_of r) True) (Records req))]\<rparr>))"
proof (intro conjI impI)
  assume a: "(\<forall>r. r \<in> set pre \<longrightarrow> assign r = Inr (doc_of r)) \<and> assign bad = Inl err \<and>
      Records req = pre @ bad # post"
  then have "build_models assign (Records req) [] = Inl err"
    using build_models_first_error [of pre assign doc_of bad err post "[]"] by simp
  then show "Upsert assign ParseAndValidate BulkWrite m req be = (Some err, be)"
    by (simp add: Upsert_def)
next
  assume a: "(\<forall>r. r \<in> set (Records req) \<longrightarrow> assign r = Inr (doc_of r)) \<and>
      ParseAndValidate (dns m) = Inl err"
  then have "build_models assign (Records req) [] =
      Inr ([] @ map (\<lambda>r. UpdateOneModel (doc_of r) (doc_of r) True) (Records req))"
    by (intro build_models_ok) simp
  with a show "Upsert assign ParseAndValidate BulkWrite m req be = (Some err, be)"
    by (simp add: Upsert_def)
next
  assume a: "(\<forall>r. r \<in> set (Records req) \<longrightarrow> assign r = Inr (doc_of r)) \<and>
      ParseAndValidate (dns m) = Inr database"
  then have "build_models assign (Records req) [] =
      Inr ([] @ map (\<lambda>r. UpdateOneModel (doc_of r) (doc_of r) True) (Records req))"
    by (intro build_models_ok) simp
  with a show "Upsert assign ParseAndValidate BulkWrite m req be =
          (fst (BulkWrite database (Table req)
                 (map (\<lambda>r. UpdateOneModel (doc_of r) (doc_of r) True) (Records req)) (contents be)),
           \<lparr>contents =
              snd (BulkWrite database (Table req)
                 (map (\<lambda>r. UpdateOneModel (doc_of r) (doc_of r) True) (Records req)) (contents be)),
            bulk_writes = bulk_writes be @
              [(database, Table req,
                map (\<lambda>r. UpdateOneModel (doc_of r) (doc_of r) True) (Records req))]\<rparr>)"
    by (simp add: Upsert_def split: prod.splits option.splits)
qed

text \<open>
  A record that cannot be prepared, a connection string that does not parse, and a
  request that goes through, on a store that takes every document.
\<close>

theorem Upsert_one_bulk_write_witness:
  "Upsert (\<lambda>r. if r = ''?'' then Inl (BackendError ''malformed record'') else Inr r)
        (\<lambda>uri. Inr ''gidari'') (\<lambda>database table. ordered_bulk (\<lambda>doc. True))
        \<lparr>Client = (), dns = ''mongodb://localhost/gidari''\<rparr>
        \<lparr>Table = ''candles'', Records = [''a'', ''?'', ''c'']\<rparr>
        \<lparr>contents = [''z''], bulk_writes = []\<rparr> =
     (Some (BackendError ''malformed record''), \<lparr>contents = [''z''], bulk_writes = []\<rparr>) \<and>
   Upsert (\<lambda>r. if r = ''?'' then Inl (BackendError ''malformed record'') else Inr r)
        (\<lambda>uri. Inl (BackendError ''bad uri'')) (\<lambda>database table. ordered_bulk (\<lambda>doc. True))
        \<lparr>Client = (), dns = ''mongodb://''\<rparr>
        \<lparr>Table = ''candles'', Records = [''a'', ''b'']\<rparr>
        \<lparr>contents = [''z''], bulk_writes = []\<rparr> =
     (Some (BackendError ''bad uri''), \<lparr>contents = [''z''], bulk_writes = []\<rparr>) \<and>
   Upsert (\<lambda>r. if r = ''?'' then Inl (BackendError ''malformed record'') else Inr r)
        (\<lambda>uri. Inr ''gidari'') (\<lambda>database table. ordered_bulk (\<lambda>doc. True))
        \<lparr>Client = (), dns = ''mongodb://localhost/gidari''\<rparr>
        \<lparr>Table = ''candles'', Records = [''a'', ''b'']\<rparr>
        \<lparr>contents = [''z''], bulk_writes = []\<rparr> =
     (None,
      \<lparr>contents = [''z'', ''a'', ''b''],
       bulk_writes = [(''gidari'', ''candles'',
         [UpdateOneModel ''a'' ''a'' True, UpdateOneModel ''b'' ''b'' True])]\<rparr>)"
  using
    Upsert_one_bulk_write
      [of "[''a'']" "\<lambda>r. if r = ''?'' then Inl (BackendError ''malformed record'') else Inr r"
          "\<lambda>r. r" "''?''" "BackendError ''malformed record''"
          "\<lparr>Table = ''candles'', Records = [''a'', ''?'', ''c'']\<rparr>" "[''c'']"
          "\<lambda>uri. Inr ''gidari''" "\<lambda>database table. ordered_bulk (\<lambda>doc. True)"
          "\<lparr>Client = (), dns = ''mongodb://localhost/gidari''\<rparr>"
          "\<lparr>contents = [''z''], bulk_writes = []\<rparr>"]
    Upsert_one_bulk_write
      [of "[]" "\<lambda>r. if r = ''?'' then Inl (BackendError ''malformed record'') else Inr r"
          "\<lambda>r. r" "''?''" "BackendError ''bad uri''"
          "\<lparr>Table = ''candles'', Records = [''a'', ''b'']\<rparr>" "[]"
          "\<lambda>uri. Inl (BackendError ''bad uri'')" "\<lambda>database table. ordered_bulk (\<lambda>doc. True)"
          "\<lparr>Client = (), dns = ''mongodb://''\<rparr>"
          "\<lparr>contents = [''z''], bulk_writes = []\<rparr>"]
    Upsert_one_bulk_write
      [of "[]" "\<lambda>r. if r = ''?'' then Inl (BackendError ''malformed record'') else Inr r"
          "\<lambda>r. r" "''?''" "BackendError ''bad uri''"
          "\<lparr>Table = ''candles'', Records = [''a'', ''b'']\<rparr>" "[]"
          "\<lambda>uri. Inr ''gidari''" "\<lambda>database table. ordered_bulk (\<lambda>doc. True)"
          "\<lparr>Client = (), dns = ''mongodb://localhost/gidari''\<rparr>"
          "\<lparr>contents = [''z''], bulk_writes = []\<rparr>" "''gidari''"]
  by simp

text \<open>
  C9 as the spec states it fails: the call can fail with some of the records applied.
  Three records go to a store that takes every document but \<^verbatim>\<open>bad\<close>; every record
  can be prepared, one bulk write is issued, it fails at the second record, and the
  first record stays in the collection.
\<close>

theorem Upsert_partial_counterexample:
  "Upsert (\<lambda>r. Inr r) (\<lambda>uri. Inr ''gidari'') (\<lambda>database table. ordered_bulk (\<lambda>doc. doc \<noteq> ''bad''))
        \<lparr>Client = (), dns = ''mongodb://localhost/gidari''\<rparr>
        \<lparr>Table = ''candles'', Records = [''a'', ''bad'', ''c'']\<rparr>
        \<lparr>contents = [], bulk_writes = []\<rparr> =
    (Some (BackendError ''write error''),
     \<lparr>contents = [''a''],
      bulk_writes = [(''gidari'', ''candles'',
        [UpdateOneModel ''a'' ''a'' True, UpdateOneModel ''bad'' ''bad'' True,
         UpdateOneModel ''c'' ''c'' True])]\<rparr>)"
  by (simp add: Upsert_def)

subsection \<open>The transaction worker: schedules and their invariants\<close>

lemma run_invariant_on:
  assumes "run drv sched tx = Ok tx'" and "P tx"
    and "\<And>a t t'. a \<in> set sched \<Longrightarrow> P t \<Longrightarrow> step drv a t = Ok t' \<Longrightarrow> P t'"
  shows "P tx'"
  using assms
proof (induction sched arbitrary: tx)
  case Nil
  then show ?case by simp
next
  case (Cons a sched)
  from Cons.prems(1) obtain t where t: "step drv a tx = Ok t" and r: "run drv sched t = Ok tx'"
    by (auto split: outcome.splits)
  have "P t"
    using Cons.prems(3) [of a tx t] Cons.prems(2) t by simp
  then show ?case
  proof (rule Cons.IH [OF r])
    fix b u u'
    assume "b \<in> set sched" and "P u" and "step drv b u = Ok u'"
    then show "P u'"
      using Cons.prems(3) [of b u u'] by simp
  qed
qed

lemma run_invariant:
  assumes "run drv sched tx = Ok tx'" and "P tx"
    and "\<And>a t t'. P t \<Longrightarrow> step drv a t = Ok t' \<Longrightarrow> P t'"
  shows "P tx'"
  using run_invariant_on [of drv sched tx tx' P] assms by blast











subsection \<open>The worker's trace and its return\<close>

lemma times_zero_iff: "times c cs = 0 \<longleftrightarrow> c \<notin> set cs"
  by (auto simp: times_def filter_empty_conv)

lemma worker_step_trace_ok:
  assumes "trace_ok tx" and "worker_step drv tx = Some tx'"
  shows "trace_ok tx'"
proof (cases "pc tx")
  case AtUseSession
  with assms show ?thesis
    by (auto simp: worker_step_def trace_ok_def Let_def invoke_def times_def split: option.splits)
next
  case AtStartTransaction
  with assms show ?thesis
    by (auto simp: worker_step_def trace_ok_def Let_def invoke_def times_def split: option.splits)
next
  case AtRange
  with assms show ?thesis
    by (auto simp: worker_step_def trace_ok_def Let_def split: if_splits)
next
  case (AtCall p fn)
  with assms show ?thesis
    by (auto simp: worker_step_def trace_ok_def Let_def invoke_def times_def
        split: prod.splits option.splits)
next
  case AtCommitRecv
  with assms show ?thesis
    by (auto simp: worker_step_def trace_ok_def Let_def invoke_def times_def
        split: list.splits option.splits if_splits)
next
  case AtRollbackRecv
  with assms show ?thesis
    by (auto simp: worker_step_def trace_ok_def Let_def invoke_def times_def
        split: list.splits if_splits)
next
  case AtDoneSend
  with assms show ?thesis
    by (auto simp: worker_step_def trace_ok_def Let_def invoke_def times_def split: if_splits)
next
  case (Returned r)
  with assms show ?thesis
    by (simp add: worker_step_def)
qed

lemma trace_ok_step:
  assumes "trace_ok tx" and "step drv a tx = Ok tx'"
  shows "trace_ok tx'"
proof (cases a)
  case Work
  with assms show ?thesis
    by (auto simp: step_def split: option.splits intro: worker_step_trace_ok)
next
  case (Submit p fn)
  with assms show ?thesis
    by (auto simp: step_def trace_ok_def Let_def split: if_splits pc.splits)
next
  case CloseCh
  with assms show ?thesis
    by (auto simp: step_def trace_ok_def Let_def split: if_splits pc.splits option.splits)
next
  case (SignalCommit v)
  with assms show ?thesis
    by (auto simp: step_def trace_ok_def Let_def split: if_splits pc.splits option.splits)
next
  case (SignalRollback v)
  with assms show ?thesis
    by (auto simp: step_def trace_ok_def Let_def split: if_splits pc.splits option.splits)
next
  case AwaitDone
  with assms show ?thesis
    by (auto simp: step_def trace_ok_def Let_def split: list.splits pc.splits option.splits)
qed

lemma trace_ok_run:
  assumes "run drv sched (StartTx d) = Ok tx"
  shows "trace_ok tx"
proof (rule run_invariant [OF assms, where P = trace_ok])
  show "trace_ok (StartTx d)"
    by (simp add: trace_ok_def StartTx_def times_def)
next
  fix a and t t' :: "'a Tx"
  assume "trace_ok t" and "step drv a t = Ok t'"
  then show "trace_ok t'"
    by (rule trace_ok_step)
qed

lemma step_after_return:
  assumes "step drv a tx = Ok tx'" and "pc tx = Returned r"
  shows "pc tx' = Returned r \<and> executed tx' = executed tx \<and> sctx tx' = sctx tx"
proof (cases a)
  case Work
  with assms show ?thesis
    by (simp add: step_def worker_step_def)
next
  case (Submit p fn)
  with assms show ?thesis
    by (auto simp: step_def split: if_splits)
next
  case CloseCh
  with assms show ?thesis
    by (auto simp: step_def split: if_splits)
next
  case (SignalCommit v)
  with assms show ?thesis
    by (auto simp: step_def split: if_splits)
next
  case (SignalRollback v)
  with assms show ?thesis
    by (auto simp: step_def split: if_splits)
next
  case AwaitDone
  with assms show ?thesis
    by (auto simp: step_def split: list.splits)
qed

lemma run_after_return:
  assumes "run drv sched tx = Ok tx'" and "pc tx = Returned r"
  shows "pc tx' = Returned r \<and> executed tx' = executed tx \<and> sctx tx' = sctx tx"
proof (rule run_invariant [OF assms(1),
        where P = "\<lambda>t. pc t = Returned r \<and> executed t = executed tx \<and> sctx t = sctx tx"])
  show "pc tx = Returned r \<and> executed tx = executed tx \<and> sctx tx = sctx tx"
    using assms(2) by simp
next
  fix a t t'
  assume "pc t = Returned r \<and> executed t = executed tx \<and> sctx t = sctx tx"
    and "step drv a t = Ok t'"
  then show "pc t' = Returned r \<and> executed t' = executed tx \<and> sctx t' = sctx tx"
    using step_after_return [of drv a t t' r] by simp
qed

lemma at_most_one_terminal_action:
  assumes "run drv sched (StartTx d) = Ok tx"
  shows "times CommitTransaction (calls (sctx tx)) + times AbortTransaction (calls (sctx tx)) \<le> 1"
  using trace_ok_run [OF assms]
  by (auto simp: trace_ok_def Let_def split: pc.splits option.splits)

text \<open>
  C4. When an operation that the worker has received returns an error, the next step of
  the worker, which needs nothing from the commit or the rollback channel and leaves
  all channels as they are, returns that error to the error group: the operation counts
  as executed, the session is ended and neither terminal primitive is called. From then
  on, in every schedule, the worker stays returned with that error, the list of
  executed operations does not grow and the session does not change: no later
  operation is run and the error is the outcome of the transaction.
\<close>

theorem failing_operation_ends_transaction:
  assumes "pc tx = AtCall p fn" and "fn (sdata (sctx tx)) = (Some err, d)"
  shows "\<exists>tx'. step drv Work tx = Ok tx' \<and>
           pc tx' = Returned (Some err) \<and>
           executed tx' = executed tx @ [(p, fn)] \<and>
           calls (sctx tx') = calls (sctx tx) @ [EndSession] \<and>
           commit_ch tx' = commit_ch tx \<and> rollback_ch tx' = rollback_ch tx \<and>
           done_ch tx' = done_ch tx \<and>
           (\<forall>sched tx''. run drv sched tx' = Ok tx'' \<longrightarrow>
              pc tx'' = Returned (Some err) \<and> executed tx'' = executed tx' \<and>
              sctx tx'' = sctx tx')"
proof -
  define tx' where "tx' = tx\<lparr>pc := Returned (Some err),
                       sctx := invoke EndSession ((sctx tx)\<lparr>sdata := d\<rparr>),
                       executed := executed tx @ [(p, fn)]\<rparr>"
  have s: "step drv Work tx = Ok tx'"
    using assms by (simp add: step_def worker_step_def tx'_def)
  have ret: "pc tx' = Returned (Some err)"
    by (simp add: tx'_def)
  have fields: "executed tx' = executed tx @ [(p, fn)]"
    "calls (sctx tx') = calls (sctx tx) @ [EndSession]"
    "commit_ch tx' = commit_ch tx" "rollback_ch tx' = rollback_ch tx" "done_ch tx' = done_ch tx"
    by (simp_all add: tx'_def invoke_def)
  have final: "\<forall>sched tx''. run drv sched tx' = Ok tx'' \<longrightarrow>
              pc tx'' = Returned (Some err) \<and> executed tx'' = executed tx' \<and>
              sctx tx'' = sctx tx'"
  proof (intro allI impI)
    fix sched tx''
    assume "run drv sched tx' = Ok tx''"
    then show "pc tx'' = Returned (Some err) \<and> executed tx'' = executed tx' \<and> sctx tx'' = sctx tx'"
      using ret by (rule run_after_return)
  qed
  show ?thesis
    by (rule exI [of _ tx']) (intro conjI s ret fields final)
qed

text \<open>
  The second operation of a transaction fails while a commit signal and a rollback
  signal are still to come: the worker returns the error at once, and the close of the
  queue and the two signals that follow change nothing.
\<close>

theorem failing_operation_ends_transaction_witness:
  "step reliable Work
       \<lparr>pc = AtCall 2 failing,
        sctx = \<lparr>sdata = [''a''], calls = [StartSession, StartTransaction]\<rparr>,
        executed = [(1, put ''a'')], Ch_closed = False,
        commit_ch = [], rollback_ch = [], done_ch = []\<rparr> =
     Ok \<lparr>pc = Returned (Some (BackendError ''invalid record'')),
         sctx = \<lparr>sdata = [''a''], calls = [StartSession, StartTransaction, EndSession]\<rparr>,
         executed = [(1, put ''a''), (2, failing)], Ch_closed = False,
         commit_ch = [], rollback_ch = [], done_ch = []\<rparr> \<and>
   run reliable [CloseCh, SignalCommit True, SignalRollback True]
       \<lparr>pc = Returned (Some (BackendError ''invalid record'')),
        sctx = \<lparr>sdata = [''a''], calls = [StartSession, StartTransaction, EndSession]\<rparr>,
        executed = [(1, put ''a''), (2, failing)], Ch_closed = False,
        commit_ch = [], rollback_ch = [], done_ch = []\<rparr> =
     Ok \<lparr>pc = Returned (Some (BackendError ''invalid record'')),
         sctx = \<lparr>sdata = [''a''], calls = [StartSession, StartTransaction, EndSession]\<rparr>,
         executed = [(1, put ''a''), (2, failing)], Ch_closed = True,
         commit_ch = [True], rollback_ch = [True], done_ch = []\<rparr>"
  using failing_operation_ends_transaction
    [of "\<lparr>pc = AtCall 2 failing,
         sctx = \<lparr>sdata = [''a''], calls = [StartSession, StartTransaction]\<rparr>,
         executed = [(1, put ''a'')], Ch_closed = False,
         commit_ch = [], rollback_ch = [], done_ch = []\<rparr>"
        2 failing "BackendError ''invalid record''" "[''a'']" reliable]
  by (simp add: step_def worker_step_def invoke_def failing_def)

text \<open>
  C5, as amended. Once the worker has returned, in every schedule that follows, a send of
  an operation on the queue is never accepted: it blocks while the queue is open and
  panics when the queue has been closed. The worker stays returned, so the send is
  never accepted later either, and the operation is never run. No error value goes
  back to the sender.
\<close>

theorem submission_after_exit_is_never_accepted:
  assumes "pc tx = Returned r" and "run drv sched tx = Ok tx'"
  shows "step drv (Submit p fn) tx' = (if Ch_closed tx' then Panics else Blocks) \<and>
         pc tx' = Returned r \<and> executed tx' = executed tx \<and> sctx tx' = sctx tx"
proof -
  have after: "pc tx' = Returned r \<and> executed tx' = executed tx \<and> sctx tx' = sctx tx"
    using run_after_return [OF assms(2,1)] .
  then have "step drv (Submit p fn) tx' = (if Ch_closed tx' then Panics else Blocks)"
    by (simp add: step_def)
  with after show ?thesis
    by simp
qed

text \<open>
  After the failure of an operation, with a rollback signal sent in the meantime, a
  further send blocks.
\<close>

theorem submission_after_exit_is_never_accepted_witness:
  "run reliable [SignalRollback True]
       \<lparr>pc = Returned (Some (BackendError ''invalid record'')),
        sctx = \<lparr>sdata = [''a''], calls = [StartSession, StartTransaction, EndSession]\<rparr>,
        executed = [(1, put ''a''), (2, failing)], Ch_closed = False,
        commit_ch = [], rollback_ch = [], done_ch = []\<rparr> =
     Ok \<lparr>pc = Returned (Some (BackendError ''invalid record'')),
         sctx = \<lparr>sdata = [''a''], calls = [StartSession, StartTransaction, EndSession]\<rparr>,
         executed = [(1, put ''a''), (2, failing)], Ch_closed = False,
         commit_ch = [], rollback_ch = [True], done_ch = []\<rparr> \<and>
   step reliable (Submit 3 (put ''b''))
       \<lparr>pc = Returned (Some (BackendError ''invalid record'')),
        sctx = \<lparr>sdata = [''a''], calls = [StartSession, StartTransaction, EndSession]\<rparr>,
        executed = [(1, put ''a''), (2, failing)], Ch_closed = False,
        commit_ch = [], rollback_ch = [True], done_ch = []\<rparr> = Blocks"
proof -
  have r: "run reliable [SignalRollback True]
       \<lparr>pc = Returned (Some (BackendError ''invalid record'')),
        sctx = \<lparr>sdata = [''a''], calls = [StartSession, StartTransaction, EndSession]\<rparr>,
        executed = [(1, put ''a''), (2, failing)], Ch_closed = False,
        commit_ch = [], rollback_ch = [], done_ch = []\<rparr> =
     Ok \<lparr>pc = Returned (Some (BackendError ''invalid record'')),
         sctx = \<lparr>sdata = [''a''], calls = [StartSession, StartTransaction, EndSession]\<rparr>,
         executed = [(1, put ''a''), (2, failing)], Ch_closed = False,
         commit_ch = [], rollback_ch = [True], done_ch = []\<rparr>"
    by (simp add: step_def)
  show ?thesis
    using submission_after_exit_is_never_accepted
      [OF _ r, of "Some (BackendError ''invalid record'')" 3 "put ''b''"] r
    by simp
qed

text \<open>
  C5 as the spec states it fails. A transaction is started, a first operation succeeds
  and a second one fails, so the worker returns. The next send on the queue does not
  yield an error: it blocks.
\<close>

theorem submission_after_exit_counterexample:
  "run reliable [Work, Work, Submit 1 (put ''a''), Work, Submit 2 failing, Work] (StartTx []) =
     Ok \<lparr>pc = Returned (Some (BackendError ''invalid record'')),
         sctx = \<lparr>sdata = [''a''], calls = [StartSession, StartTransaction, EndSession]\<rparr>,
         executed = [(1, put ''a''), (2, failing)], Ch_closed = False,
         commit_ch = [], rollback_ch = [], done_ch = []\<rparr> \<and>
   step reliable (Submit 3 (put ''b''))
       \<lparr>pc = Returned (Some (BackendError ''invalid record'')),
        sctx = \<lparr>sdata = [''a''], calls = [StartSession, StartTransaction, EndSession]\<rparr>,
        executed = [(1, put ''a''), (2, failing)], Ch_closed = False,
        commit_ch = [], rollback_ch = [], done_ch = []\<rparr> = Blocks \<and>
   run reliable
       [Work, Work, Submit 1 (put ''a''), Work, Submit 2 failing, Work, Submit 3 (put ''b'')]
       (StartTx []) = Blocks"
  by (simp add: StartTx_def step_def worker_step_def reliable_def invoke_def put_def failing_def)

text \<open>
  C3. The claim says that the completion signal is sent exactly once on every terminal
  path, the failing ones included. In the source the send follows the switch, and every
  error return leaves the function before it. For every schedule that runs: the number
  of sends on \<^verbatim>\<open>tx.done\<close> is one when the worker has returned \<^verbatim>\<open>nil\<close> and zero in
  every other state; when the worker has returned an error, nothing was ever sent on
  \<^verbatim>\<open>tx.done\<close> and the channel is empty.
\<close>

theorem done_signal_only_on_nil_return:
  assumes "run drv sched (StartTx d) = Ok tx"
  shows "times SendDone (calls (sctx tx)) = (case pc tx of Returned None \<Rightarrow> 1 | _ \<Rightarrow> 0) \<and>
         (\<forall>err. pc tx = Returned (Some err) \<longrightarrow>
            SendDone \<notin> set (calls (sctx tx)) \<and> done_ch tx = [])"
  using trace_ok_run [OF assms]
  by (auto simp: trace_ok_def Let_def times_zero_iff split: pc.splits option.splits)

text \<open>
  The path on which the commit primitive fails: one operation, the close of the queue,
  a commit signal; the worker returns the error of the commit and \<^verbatim>\<open>tx.done\<close> stays
  empty.
\<close>

theorem done_signal_only_on_nil_return_witness:
  "run commit_failing
       [Work, Work, Submit 1 (put ''a''), Work, CloseCh, SignalCommit True, Work, Work]
       (StartTx []) =
     Ok \<lparr>pc = Returned (Some (BackendError ''commit failed'')),
         sctx = \<lparr>sdata = [''a''],
                 calls = [StartSession, StartTransaction, CommitTransaction, EndSession]\<rparr>,
         executed = [(1, put ''a'')], Ch_closed = True,
         commit_ch = [], rollback_ch = [], done_ch = []\<rparr> \<and>
   times SendDone [StartSession, StartTransaction, CommitTransaction, EndSession] = 0"
proof -
  have r: "run commit_failing
       [Work, Work, Submit 1 (put ''a''), Work, CloseCh, SignalCommit True, Work, Work]
       (StartTx []) =
     Ok \<lparr>pc = Returned (Some (BackendError ''commit failed'')),
         sctx = \<lparr>sdata = [''a''],
                 calls = [StartSession, StartTransaction, CommitTransaction, EndSession]\<rparr>,
         executed = [(1, put ''a'')], Ch_closed = True,
         commit_ch = [], rollback_ch = [], done_ch = []\<rparr>"
    by (simp add: StartTx_def step_def worker_step_def commit_failing_def reliable_def
        invoke_def put_def)
  show ?thesis
    using done_signal_only_on_nil_return [OF r] r by simp
qed

text \<open>The path on which an operation of the loop fails, and the path of a commit.\<close>

lemma done_signal_after_failing_operation:
  "run reliable [Work, Work, Submit 1 (put ''a''), Work, Submit 2 failing, Work] (StartTx []) =
     Ok \<lparr>pc = Returned (Some (BackendError ''invalid record'')),
         sctx = \<lparr>sdata = [''a''], calls = [StartSession, StartTransaction, EndSession]\<rparr>,
         executed = [(1, put ''a''), (2, failing)], Ch_closed = False,
         commit_ch = [], rollback_ch = [], done_ch = []\<rparr>"
  by (simp add: StartTx_def step_def worker_step_def reliable_def invoke_def put_def failing_def)

lemma done_signal_after_commit:
  "run reliable
       [Work, Work, Submit 1 (put ''a''), Work, CloseCh, SignalCommit True, Work, Work, Work]
       (StartTx []) =
     Ok \<lparr>pc = Returned None,
         sctx = \<lparr>sdata = [''a''],
                 calls = [StartSession, StartTransaction, CommitTransaction, SendDone,
                          EndSession]\<rparr>,
         executed = [(1, put ''a'')], Ch_closed = True,
         commit_ch = [], rollback_ch = [], done_ch = [True]\<rparr>"
  by (simp add: StartTx_def step_def worker_step_def reliable_def invoke_def put_def)

subsection \<open>The switch on the commit and the rollback channel\<close>

lemma worker_step_undecided:
  assumes "undecided tx" and "worker_step drv tx = Some tx'"
  shows "undecided tx'"
proof (cases "pc tx")
  case AtUseSession
  with assms show ?thesis
    by (auto simp: worker_step_def undecided_def invoke_def split: option.splits)
next
  case AtStartTransaction
  with assms show ?thesis
    by (auto simp: worker_step_def undecided_def invoke_def split: option.splits)
next
  case AtRange
  with assms show ?thesis
    by (auto simp: worker_step_def undecided_def split: if_splits)
next
  case (AtCall p fn)
  with assms show ?thesis
    by (auto simp: worker_step_def undecided_def invoke_def split: prod.splits option.splits)
next
  case AtCommitRecv
  with assms show ?thesis
    by (simp add: worker_step_def undecided_def)
next
  case AtRollbackRecv
  with assms show ?thesis
    by (simp add: undecided_def)
next
  case AtDoneSend
  with assms show ?thesis
    by (simp add: undecided_def)
next
  case (Returned r)
  with assms show ?thesis
    by (simp add: worker_step_def)
qed

lemma step_undecided:
  assumes "undecided tx" and "step drv a tx = Ok tx'" and "\<forall>v. a \<noteq> SignalCommit v"
  shows "undecided tx'"
proof (cases a)
  case Work
  with assms show ?thesis
    by (auto simp: step_def split: option.splits intro: worker_step_undecided)
next
  case (Submit p fn)
  with assms show ?thesis
    by (auto simp: step_def undecided_def split: if_splits pc.splits)
next
  case CloseCh
  with assms show ?thesis
    by (auto simp: step_def undecided_def split: if_splits pc.splits option.splits)
next
  case (SignalCommit v)
  with assms(3) show ?thesis
    by blast
next
  case (SignalRollback v)
  with assms show ?thesis
    by (auto simp: step_def undecided_def split: if_splits pc.splits option.splits)
next
  case AwaitDone
  with assms show ?thesis
    by (auto simp: step_def undecided_def split: list.splits pc.splits option.splits)
qed

text \<open>
  C2. The claim says that the worker watches the commit and the rollback signal together,
  honours the one that arrives first, and never hangs. In the source the two receives
  are the cases of a switch without tag, which are evaluated in order: the worker
  receives from \<^verbatim>\<open>tx.commit\<close> first, whatever \<^verbatim>\<open>tx.rollback\<close> holds. So for
  every schedule that runs and in which nothing is sent on \<^verbatim>\<open>tx.commit\<close>, whatever
  is sent on \<^verbatim>\<open>tx.rollback\<close>: the abort primitive is never called, nor the commit
  primitive, nothing is sent on \<^verbatim>\<open>tx.done\<close>, the worker does not return
  \<^verbatim>\<open>nil\<close>, and once it stands at the switch it cannot move.
\<close>

theorem rollback_signal_alone_is_never_honoured:
  assumes "run drv sched (StartTx d) = Ok tx" and "\<forall>v. SignalCommit v \<notin> set sched"
  shows "AbortTransaction \<notin> set (calls (sctx tx)) \<and>
         CommitTransaction \<notin> set (calls (sctx tx)) \<and>
         SendDone \<notin> set (calls (sctx tx)) \<and>
         pc tx \<noteq> Returned None \<and>
         (pc tx = AtCommitRecv \<longrightarrow> step drv Work tx = Blocks)"
proof -
  have "undecided tx"
  proof (rule run_invariant_on [OF assms(1), where P = undecided])
    show "undecided (StartTx d)"
      by (simp add: undecided_def StartTx_def)
  next
    fix a and t t' :: "'a Tx"
    assume "a \<in> set sched" and "undecided t" and "step drv a t = Ok t'"
    moreover from \<open>a \<in> set sched\<close> assms(2) have "\<forall>v. a \<noteq> SignalCommit v"
      by auto
    ultimately show "undecided t'"
      using step_undecided by blast
  qed
  then show ?thesis
    by (auto simp: undecided_def step_def worker_step_def split: pc.splits option.splits)
qed

text \<open>
  One operation, the close of the queue and a rollback signal: the worker stands at the
  receive from \<^verbatim>\<open>tx.commit\<close> with the rollback signal waiting in its channel, and
  cannot move.
\<close>

theorem rollback_signal_alone_is_never_honoured_witness:
  "run reliable [Work, Work, Submit 1 (put ''a''), Work, CloseCh, SignalRollback True, Work]
       (StartTx []) =
     Ok \<lparr>pc = AtCommitRecv,
         sctx = \<lparr>sdata = [''a''], calls = [StartSession, StartTransaction]\<rparr>,
         executed = [(1, put ''a'')], Ch_closed = True,
         commit_ch = [], rollback_ch = [True], done_ch = []\<rparr> \<and>
   step reliable Work
       \<lparr>pc = AtCommitRecv,
        sctx = \<lparr>sdata = [''a''], calls = [StartSession, StartTransaction]\<rparr>,
        executed = [(1, put ''a'')], Ch_closed = True,
        commit_ch = [], rollback_ch = [True], done_ch = []\<rparr> = Blocks"
proof -
  have r: "run reliable [Work, Work, Submit 1 (put ''a''), Work, CloseCh, SignalRollback True, Work]
       (StartTx []) =
     Ok \<lparr>pc = AtCommitRecv,
         sctx = \<lparr>sdata = [''a''], calls = [StartSession, StartTransaction]\<rparr>,
         executed = [(1, put ''a'')], Ch_closed = True,
         commit_ch = [], rollback_ch = [True], done_ch = []\<rparr>"
    by (simp add: StartTx_def step_def worker_step_def reliable_def invoke_def put_def)
  have n: "\<forall>v. SignalCommit v \<notin>
      set [Work, Work, Submit 1 (put ''a''), Work, CloseCh, SignalRollback True, Work]"
    by simp
  show ?thesis
    using rollback_signal_alone_is_never_honoured [OF r n] r by simp
qed

text \<open>
  A rollback signal followed by a commit signal: the worker commits, and the rollback
  signal, which arrived first, stays in its channel.
\<close>

lemma rollback_then_commit_commits:
  "run reliable [Work, Work, CloseCh, SignalRollback True, SignalCommit True, Work, Work, Work]
       (StartTx ([] :: string list)) =
     Ok \<lparr>pc = Returned None,
         sctx = \<lparr>sdata = [],
                 calls = [StartSession, StartTransaction, CommitTransaction, SendDone, EndSession]\<rparr>,
         executed = [], Ch_closed = True,
         commit_ch = [], rollback_ch = [True], done_ch = [True]\<rparr>"
  by (simp add: StartTx_def step_def worker_step_def reliable_def invoke_def)

end
